theory Spec2Isabelle
  imports Main "HOL-Library.Word"
begin

unbundle bit_operations_syntax

section \<open>The WebGPU buffer manager (WebGPUBufferManager)\<close>

text \<open>
  A shallow embedding of the class \<^verbatim>\<open>WebGPUBufferManager\<close>: buffer creation, the
  alignment-corrected upload, the mapped read-back and the deferred release.

  Conventions of the embedding.
  \<^item> A JavaScript number that holds a size, an offset or a count is an \<open>int\<close>
    (integral values; fractions and NaN are outside the model). The bitwise operators
    \<^verbatim>\<open>&\<close> and \<^verbatim>\<open>~\<close> first convert their operands to 32-bit signed integers; that
    conversion is written out in \<open>ToInt32\<close>.
  \<^item> An \<^verbatim>\<open>ArrayBuffer\<close> is the list of its bytes; a view carries the contents of its
    backing buffer together with \<open>byteOffset\<close> and \<open>byteLength\<close>. A function that
    mutates a buffer returns the view with the new contents.
  \<^item> A thrown exception is the \<open>Inl\<close> branch of a sum.
  \<^item> A \<^verbatim>\<open>GPUBuffer\<close> is a reference (an index) into the device's list of buffer
    objects.
\<close>

subsection \<open>JavaScript integers\<close>

definition ToInt32 :: "int \<Rightarrow> int" where
  "ToInt32 x = (let m = x mod 2 ^ 32 in if 2 ^ 31 \<le> m then m - 2 ^ 32 else m)"

text \<open>\<^verbatim>\<open>a & b\<close> and \<^verbatim>\<open>~a\<close> on numbers.\<close>

definition bitand :: "int \<Rightarrow> int \<Rightarrow> int" where
  "bitand a b = ToInt32 a AND ToInt32 b"

definition bitnot :: "int \<Rightarrow> int" where
  "bitnot a = NOT (ToInt32 a)"

subsection \<open>Errors\<close>

datatype error =
    RangeError      \<comment> \<open>typed-array construction, \<^verbatim>\<open>set\<close>\<close>
  | TypeError       \<comment> \<open>a negative number where the device takes an unsigned size\<close>
  | OperationError  \<comment> \<open>\<^verbatim>\<open>writeBuffer\<close>: the data range is not inside the data\<close>
  | ValidationError \<comment> \<open>the device refuses the command\<close>
  | AbortError      \<comment> \<open>a rejected \<^verbatim>\<open>mapAsync\<close>\<close>

subsection \<open>Array buffers and views\<close>

type_synonym byte = "8 word"

record ArrayBufferView =
  buffer :: "byte list"
  byteOffset :: int
  byteLength :: int

text \<open>The bytes a view shows.\<close>

definition view_bytes :: "ArrayBufferView \<Rightarrow> byte list" where
  "view_bytes v = take (nat (byteLength v)) (drop (nat (byteOffset v)) (buffer v))"

text \<open>A view as JavaScript can hold it: inside its backing buffer.\<close>

definition valid_view :: "ArrayBufferView \<Rightarrow> bool" where
  "valid_view v \<longleftrightarrow>
     0 \<le> byteOffset v \<and> 0 \<le> byteLength v \<and>
     byteOffset v + byteLength v \<le> int (length (buffer v))"

text \<open>\<^verbatim>\<open>new Uint8Array(n)\<close>: \<open>n\<close> zero bytes in a buffer of its own.\<close>

definition new_Uint8Array :: "int \<Rightarrow> error + ArrayBufferView" where
  "new_Uint8Array n =
     (if n < 0 then Inl RangeError
      else Inr \<lparr>buffer = replicate (nat n) 0, byteOffset = 0, byteLength = n\<rparr>)"

text \<open>\<^verbatim>\<open>new Uint8Array(buf, off, len)\<close>: a window on an existing buffer.\<close>

definition Uint8Array_on :: "byte list \<Rightarrow> int \<Rightarrow> int \<Rightarrow> error + ArrayBufferView" where
  "Uint8Array_on buf off len =
     (if off < 0 \<or> len < 0 \<or> int (length buf) < off + len then Inl RangeError
      else Inr \<lparr>buffer = buf, byteOffset = off, byteLength = len\<rparr>)"

text \<open>\<^verbatim>\<open>target.set(source)\<close> for two byte views: the source's bytes go to the start
  of the target's window; a source longer than the target is a RangeError.\<close>

definition typed_set :: "ArrayBufferView \<Rightarrow> ArrayBufferView \<Rightarrow> error + ArrayBufferView" where
  "typed_set target source =
     (if byteLength target < byteLength source then Inl RangeError
      else Inr (target\<lparr>buffer :=
             take (nat (byteOffset target)) (buffer target) @ view_bytes source @
             drop (nat (byteOffset target) + nat (byteLength source)) (buffer target)\<rparr>))"

subsection \<open>The device\<close>

type_synonym GPUBuffer = nat

record GPUBufferObject =
  bufsize :: int
  usage :: int
  mappedAtCreation :: bool
  contents :: "byte list"
  destroyed :: bool

text \<open>The device: its buffer objects, and the destroy requests it has received, in
  order.\<close>

record GPUDevice =
  buffers :: "GPUBufferObject list"
  destroyCalls :: "GPUBuffer list"

text \<open>
  Modelled from the spec: the device operations (\<^verbatim>\<open>GPUDevice.createBuffer\<close>,
  \<^verbatim>\<open>GPUQueue.writeBuffer\<close>, \<^verbatim>\<open>GPUBuffer.destroy\<close>) belong to the graphics device, an
  external collaborator. A created buffer has the requested size and is zero-filled; a
  queued write copies \<open>sz\<close> bytes of the data, from \<open>dataOffset\<close>, to the buffer at
  \<open>bufferOffset\<close>, and is refused unless offset and size are multiples of 4 and both
  ranges are in bounds; destroy marks the buffer.
\<close>

definition device_createBuffer ::
  "GPUDevice \<Rightarrow> int \<Rightarrow> int \<Rightarrow> bool \<Rightarrow> error + GPUBuffer \<times> GPUDevice" where
  "device_createBuffer dev sz flags mapped =
     (if sz < 0 then Inl TypeError
      else Inr (length (buffers dev),
        dev\<lparr>buffers := buffers dev @
          [\<lparr>bufsize = sz, usage = flags, mappedAtCreation = mapped,
            contents = replicate (nat sz) 0, destroyed = False\<rparr>]\<rparr>))"

definition queue_writeBuffer ::
  "GPUDevice \<Rightarrow> GPUBuffer \<Rightarrow> int \<Rightarrow> byte list \<Rightarrow> int \<Rightarrow> int \<Rightarrow> error + GPUDevice" where
  "queue_writeBuffer dev b bufferOffset data dataOffset sz =
     (if bufferOffset < 0 \<or> dataOffset < 0 \<or> sz < 0 then Inl TypeError
      else if int (length data) < dataOffset + sz \<or> sz mod 4 \<noteq> 0 then Inl OperationError
      else if length (buffers dev) \<le> b then Inl ValidationError
      else let obj = buffers dev ! b in
        if destroyed obj \<or> bufferOffset mod 4 \<noteq> 0 \<or> bufsize obj < bufferOffset + sz
        then Inl ValidationError
        else Inr (dev\<lparr>buffers := (buffers dev)[b := obj\<lparr>contents :=
               take (nat bufferOffset) (contents obj) @
               take (nat sz) (drop (nat dataOffset) data) @
               drop (nat bufferOffset + nat sz) (contents obj)\<rparr>]\<rparr>))"

definition buffer_destroy :: "GPUDevice \<Rightarrow> GPUBuffer \<Rightarrow> GPUDevice" where
  "buffer_destroy dev b =
     dev\<lparr>buffers :=
           (if b < length (buffers dev)
            then (buffers dev)[b := (buffers dev ! b)\<lparr>destroyed := True\<rparr>]
            else buffers dev),
         destroyCalls := destroyCalls dev @ [b]\<rparr>"

subsection \<open>The engine, the logical buffer and the manager\<close>

record WebGPUEngine =
  uniqueId :: int
  isDisposed :: bool

text \<open>\<^verbatim>\<open>WebGPUDataBuffer\<close>: the reference-counted handle. Its \<^verbatim>\<open>buffer\<close> setter and
  its \<^verbatim>\<open>underlyingResource\<close> getter are one field.\<close>

record WebGPUDataBuffer =
  underlyingResource :: GPUBuffer
  references :: int
  capacity :: int
  engineId :: int

record WebGPUBufferManager =
  engine :: WebGPUEngine
  device :: GPUDevice
  deferredReleaseBuffers :: "GPUBuffer list"

text \<open>The argument \<^verbatim>\<open>viewOrSize\<close>, and the argument of \<^verbatim>\<open>releaseBuffer\<close>.\<close>

datatype view_or_size = View ArrayBufferView | Size int

datatype buffer_arg = RawBuffer GPUBuffer | DataBuffer WebGPUDataBuffer

subsection \<open>Creation\<close>

text \<open>The byte length asked for (line 60), and line 43:
  \<^verbatim>\<open>(byteLength + 3) & ~3\<close>, or the same of the size.\<close>

fun requestedLength :: "view_or_size \<Rightarrow> int" where
  "requestedLength (View v) = byteLength v"
| "requestedLength (Size n) = n"

fun alignedLength :: "view_or_size \<Rightarrow> int" where
  "alignedLength (View v) = bitand (byteLength v + 3) (bitnot 3)"
| "alignedLength (Size n) = bitand (n + 3) (bitnot 3)"

text \<open>An argument JavaScript can pass: a view lies inside its backing buffer.\<close>

fun valid_view_or_size :: "view_or_size \<Rightarrow> bool" where
  "valid_view_or_size (View v) = valid_view v"
| "valid_view_or_size (Size n) = True"

text \<open>\<^verbatim>\<open>createRawBuffer\<close>. The label of the descriptor is a diagnostic string and is
  left out.\<close>

definition createRawBuffer ::
  "WebGPUBufferManager \<Rightarrow> view_or_size \<Rightarrow> int \<Rightarrow> bool \<Rightarrow> error + GPUBuffer \<times> WebGPUBufferManager" where
  "createRawBuffer m viewOrSize flags mapped =
     (case device_createBuffer (device m) (alignedLength viewOrSize) flags mapped of
        Inl e \<Rightarrow> Inl e
      | Inr (b, dev) \<Rightarrow> Inr (b, m\<lparr>device := dev\<rparr>))"

subsection \<open>Upload\<close>

text \<open>\<^verbatim>\<open>setRawData\<close>: no alignment correction.\<close>

definition setRawData ::
  "WebGPUBufferManager \<Rightarrow> GPUBuffer \<Rightarrow> int \<Rightarrow> ArrayBufferView \<Rightarrow> int \<Rightarrow> int
     \<Rightarrow> error + WebGPUBufferManager" where
  "setRawData m b dstByteOffset src srcByteOffset len =
     (case queue_writeBuffer (device m) b dstByteOffset (buffer src)
             (srcByteOffset + byteOffset src) len of
        Inl e \<Rightarrow> Inl e
      | Inr dev \<Rightarrow> Inr (m\<lparr>device := dev\<rparr>))"

text \<open>
  \<^verbatim>\<open>setSubData\<close>. Its local values first: the byte length after line 83 (a length
  of 0 stands for the rest of the view, \<^verbatim>\<open>byteLength || src.byteLength - srcByteOffset\<close>),
  \<^verbatim>\<open>startPre\<close> (line 86), the aligned byte length (line 94) and
  \<^verbatim>\<open>backingBufferSize\<close> (line 97).
\<close>

definition originalByteLength :: "ArrayBufferView \<Rightarrow> int \<Rightarrow> int \<Rightarrow> int" where
  "originalByteLength src srcByteOffset len =
     (if len \<noteq> 0 then len else byteLength src - srcByteOffset)"

definition startPre :: "int \<Rightarrow> int" where
  "startPre dstByteOffset = bitand dstByteOffset 3"

definition alignedByteLength :: "int \<Rightarrow> int \<Rightarrow> int" where
  "alignedByteLength len pre = bitand (len + pre + 3) (bitnot 3)"

definition backingBufferSize :: "ArrayBufferView \<Rightarrow> int" where
  "backingBufferSize src = int (length (buffer src)) - byteOffset src"

text \<open>
  Lines 83 to 107: the arguments \<^verbatim>\<open>setSubData\<close> hands to \<^verbatim>\<open>setRawData\<close>, as
  (destination offset, source, source offset, length). In the branch of line 99 the
  source is the scratch buffer \<^verbatim>\<open>tmpBuffer\<close>.
\<close>

definition setSubData_args ::
  "int \<Rightarrow> ArrayBufferView \<Rightarrow> int \<Rightarrow> int \<Rightarrow> error + int \<times> ArrayBufferView \<times> int \<times> int" where
  "setSubData_args dstByteOffset src srcByteOffset len =
     (let original = originalByteLength src srcByteOffset len;
          pre = startPre dstByteOffset;
          srcOff = srcByteOffset - pre;
          dstOff = dstByteOffset - pre;
          alignedLen = alignedByteLength original pre
      in if backingBufferSize src < alignedLen then
           (case new_Uint8Array alignedLen of
              Inl e \<Rightarrow> Inl e
            | Inr tmpBuffer \<Rightarrow>
               (case Uint8Array_on (buffer src) (byteOffset src + srcOff) original of
                  Inl e \<Rightarrow> Inl e
                | Inr part \<Rightarrow>
                   (case typed_set tmpBuffer part of
                      Inl e \<Rightarrow> Inl e
                    | Inr tmp \<Rightarrow> Inr (dstOff, tmp, 0, alignedLen))))
         else Inr (dstOff, src, srcOff, alignedLen))"

text \<open>\<^verbatim>\<open>setSubData\<close>: the arguments above, then line 109.\<close>

definition setSubData ::
  "WebGPUBufferManager \<Rightarrow> WebGPUDataBuffer \<Rightarrow> int \<Rightarrow> ArrayBufferView \<Rightarrow> int \<Rightarrow> int
     \<Rightarrow> error + WebGPUBufferManager" where
  "setSubData m dataBuffer dstByteOffset src srcByteOffset len =
     (case setSubData_args dstByteOffset src srcByteOffset len of
        Inl e \<Rightarrow> Inl e
      | Inr (dstOff, src', srcOff, alignedLen) \<Rightarrow>
          setRawData m (underlyingResource dataBuffer) dstOff src' srcOff alignedLen)"

text \<open>\<^verbatim>\<open>createBuffer\<close>: the handle is filled in before the initial upload, and an
  exception of the upload leaves the caller without a handle.\<close>

definition createBuffer ::
  "WebGPUBufferManager \<Rightarrow> view_or_size \<Rightarrow> int
     \<Rightarrow> error + WebGPUDataBuffer \<times> WebGPUBufferManager" where
  "createBuffer m viewOrSize flags =
     (case createRawBuffer m viewOrSize flags False of
        Inl e \<Rightarrow> Inl e
      | Inr (b, m1) \<Rightarrow>
          let dataBuffer = \<lparr>underlyingResource = b, references = 1,
                capacity = requestedLength viewOrSize,
                engineId = uniqueId (engine m1)\<rparr>
          in (case viewOrSize of
                View v \<Rightarrow>
                  (case setSubData m1 dataBuffer 0 v 0 0 of
                     Inl e \<Rightarrow> Inl e
                   | Inr m2 \<Rightarrow> Inr (dataBuffer, m2))
              | Size n \<Rightarrow> Inr (dataBuffer, m1)))"

subsection \<open>Release\<close>

text \<open>\<^verbatim>\<open>releaseBuffer\<close>: the result, the handle as the call leaves it, and the
  manager. The two cases of the argument are the two answers of \<^verbatim>\<open>_IsGPUBuffer\<close>.\<close>

definition releaseBuffer ::
  "WebGPUBufferManager \<Rightarrow> buffer_arg \<Rightarrow> bool \<times> buffer_arg \<times> WebGPUBufferManager" where
  "releaseBuffer m arg =
     (case arg of
        RawBuffer b \<Rightarrow>
          (True, arg, m\<lparr>deferredReleaseBuffers := deferredReleaseBuffers m @ [b]\<rparr>)
      | DataBuffer d \<Rightarrow>
          let d' = d\<lparr>references := references d - 1\<rparr>
          in if references d' = 0
             then (True, DataBuffer d',
                   m\<lparr>deferredReleaseBuffers :=
                       deferredReleaseBuffers m @ [underlyingResource d']\<rparr>)
             else (False, DataBuffer d', m))"

text \<open>\<^verbatim>\<open>destroyDeferredBuffers\<close>: the loop over the queue, then the queue is cut to
  length 0.\<close>

fun destroyEach :: "GPUBuffer list \<Rightarrow> GPUDevice \<Rightarrow> GPUDevice" where
  "destroyEach [] dev = dev"
| "destroyEach (b # bs) dev = destroyEach bs (buffer_destroy dev b)"

definition destroyDeferredBuffers :: "WebGPUBufferManager \<Rightarrow> WebGPUBufferManager" where
  "destroyDeferredBuffers m =
     m\<lparr>device := destroyEach (deferredReleaseBuffers m) (device m),
       deferredReleaseBuffers := []\<rparr>"

text \<open>A direct read of a window of a device buffer (the spec's hypothetical direct
  map).\<close>

definition device_read :: "GPUDevice \<Rightarrow> GPUBuffer \<Rightarrow> int \<Rightarrow> int \<Rightarrow> byte list" where
  "device_read dev b off len = take (nat len) (drop (nat off) (contents (buffers dev ! b)))"

subsection \<open>Read-back\<close>

text \<open>
  Modelled from the spec: the numeric type enumeration (\<^verbatim>\<open>Constants.TEXTURETYPE_*\<close>)
  comes from an external collaborator; it distinguishes at least unsigned byte, half
  float and float.
\<close>

datatype texture_type =
  TEXTURETYPE_UNSIGNED_BYTE | TEXTURETYPE_FLOAT | TEXTURETYPE_HALF_FLOAT | TEXTURETYPE_OTHER int

text \<open>Line 137.\<close>

fun floatFormat :: "texture_type \<Rightarrow> int" where
  "floatFormat TEXTURETYPE_FLOAT = 2"
| "floatFormat TEXTURETYPE_HALF_FLOAT = 1"
| "floatFormat TEXTURETYPE_UNSIGNED_BYTE = 0"
| "floatFormat (TEXTURETYPE_OTHER t) = 0"

text \<open>\<^verbatim>\<open>new Uint8Array(arrayBuffer)\<close>: the whole buffer.\<close>

definition whole :: "byte list \<Rightarrow> ArrayBufferView" where
  "whole buf = \<lparr>buffer = buf, byteOffset = 0, byteLength = int (length buf)\<rparr>"

text \<open>A length given as a quotient \<^verbatim>\<open>a / b\<close>: the fraction is cut off towards zero, and
  a negative length is a RangeError.\<close>

definition ToIndex_div :: "int \<Rightarrow> int \<Rightarrow> error + int" where
  "ToIndex_div a b =
     (let q = (if 0 \<le> a then a div b else - ((- a) div b))
      in if q < 0 then Inl RangeError else Inr q)"

text \<open>\<^verbatim>\<open>new Float32Array(arrayBuffer)\<close>, \<^verbatim>\<open>new Float32Array(a / 4)\<close> and
  \<^verbatim>\<open>new Float32Array(arrayBuffer, 0, a / 4)\<close>, as byte views.\<close>

definition Float32Array_whole :: "byte list \<Rightarrow> error + ArrayBufferView" where
  "Float32Array_whole buf =
     (if length buf mod 4 \<noteq> 0 then Inl RangeError else Inr (whole buf))"

definition new_Float32Array_div :: "int \<Rightarrow> int \<Rightarrow> error + ArrayBufferView" where
  "new_Float32Array_div a b =
     (case ToIndex_div a b of Inl e \<Rightarrow> Inl e | Inr n \<Rightarrow> new_Uint8Array (4 * n))"

definition Float32Array_on_div :: "byte list \<Rightarrow> int \<Rightarrow> int \<Rightarrow> error + ArrayBufferView" where
  "Float32Array_on_div buf a b =
     (case ToIndex_div a b of
        Inl e \<Rightarrow> Inl e
      | Inr n \<Rightarrow> Uint8Array_on buf 0 (4 * n))"

text \<open>Element access. A read outside a typed array is \<^verbatim>\<open>undefined\<close>, which is stored as
  0; a write outside is dropped. Elements are little-endian.\<close>

definition u8_get :: "byte list \<Rightarrow> int \<Rightarrow> byte" where
  "u8_get d i = (if 0 \<le> i \<and> i < int (length d) then d ! nat i else 0)"

definition u8_put :: "byte list \<Rightarrow> int \<Rightarrow> byte \<Rightarrow> byte list" where
  "u8_put d i v = (if 0 \<le> i \<and> i < int (length d) then d[nat i := v] else d)"

definition u16_get :: "byte list \<Rightarrow> int \<Rightarrow> 16 word" where
  "u16_get d i =
     (if 0 \<le> i \<and> i < int (length d div 2)
      then word_of_int (uint (d ! (2 * nat i)) + 256 * uint (d ! (2 * nat i + 1)))
      else 0)"

definition f32_bytes :: "32 word \<Rightarrow> byte list" where
  "f32_bytes w = [ucast w, ucast (drop_bit 8 w), ucast (drop_bit 16 w), ucast (drop_bit 24 w)]"

definition f32_put :: "ArrayBufferView \<Rightarrow> int \<Rightarrow> 32 word \<Rightarrow> ArrayBufferView" where
  "f32_put a i w =
     (if 0 \<le> i \<and> i < byteLength a div 4
      then a\<lparr>buffer :=
             take (nat (byteOffset a + 4 * i)) (buffer a) @ f32_bytes w @
             drop (nat (byteOffset a + 4 * i) + 4) (buffer a)\<rparr>
      else a)"

text \<open>
  Modelled from the spec: \<^verbatim>\<open>FromHalfFloat\<close> (Misc/textureTools) is not among the
  sources. It is the IEEE-754 half-to-single conversion; here it yields the bits that
  the store into a \<^verbatim>\<open>Float32Array\<close> leaves (a NaN is stored as the quiet NaN).
\<close>

fun top_bit :: "int \<Rightarrow> nat" where
  "top_bit n = (if n < 2 then 0 else Suc (top_bit (n div 2)))"

declare top_bit.simps [simp del]

definition FromHalfFloat :: "16 word \<Rightarrow> 32 word" where
  "FromHalfFloat h =
     (let v = uint h; s = (v div 32768) * 2147483648; e = (v div 1024) mod 32;
          f = v mod 1024
      in word_of_int
        (if e = 0 then
           (if f = 0 then s
            else s + (103 + int (top_bit f)) * 8388608 +
                 (f - 2 ^ top_bit f) * 2 ^ (23 - top_bit f))
         else if e = 31 then (if f = 0 then s + 2139095040 else 2143289344)
         else s + (e + 112) * 8388608 + f * 8192))"

text \<open>
  \<^verbatim>\<open>_getHalfFloatAsFloatRGBAArrayBuffer\<close>. The loop \<^verbatim>\<open>while (dataLength--)\<close> stops only
  when the counter reaches 0: from a negative count it runs forever.
\<close>

partial_function (option) halfFloatLoop ::
  "int \<Rightarrow> byte list \<Rightarrow> ArrayBufferView \<Rightarrow> ArrayBufferView option" where
  "halfFloatLoop dataLength srcData destArray =
     (if dataLength = 0 then Some destArray
      else halfFloatLoop (dataLength - 1) srcData
             (f32_put destArray (dataLength - 1)
                (FromHalfFloat (u16_get srcData (dataLength - 1)))))"

declare halfFloatLoop.simps [code]

text \<open>\<open>None\<close>: the call never returns. The count is \<^verbatim>\<open>size / 2\<close>; for an odd size it
  is not a whole number, the counter never is 0, and the loop runs forever (after the
  two constructors, which can throw first).\<close>

definition getHalfFloatAsFloatRGBAArrayBuffer ::
  "int \<Rightarrow> byte list \<Rightarrow> ArrayBufferView option \<Rightarrow> (error + ArrayBufferView) option" where
  "getHalfFloatAsFloatRGBAArrayBuffer sz arrayBuffer destArray =
     (case (case destArray of None \<Rightarrow> new_Float32Array_div sz 2 | Some d \<Rightarrow> Inr d) of
        Inl e \<Rightarrow> Some (Inl e)
      | Inr d \<Rightarrow>
          if length arrayBuffer mod 2 \<noteq> 0 then Some (Inl RangeError)
          else if sz mod 2 \<noteq> 0 then None
          else map_option Inr (halfFloatLoop (sz div 2) arrayBuffer d))"

text \<open>
  Modelled from the spec: \<^verbatim>\<open>allocateAndCopyTypedBuffer\<close> (abstractEngine.functions) is
  not among the sources. It copies the raw mapped bytes into a destination of the
  requested numeric type, freshly allocated (\<open>Inl size\<close>) or over the given buffer,
  with no numeric reinterpretation.
\<close>

definition allocateAndCopyTypedBuffer ::
  "texture_type \<Rightarrow> int + byte list \<Rightarrow> byte list \<Rightarrow> error + ArrayBufferView" where
  "allocateAndCopyTypedBuffer ty sizeOrDstBuffer copyBuffer =
     (case sizeOrDstBuffer of
        Inl sz \<Rightarrow>
          (case new_Uint8Array sz of
             Inl e \<Rightarrow> Inl e
           | Inr t \<Rightarrow> typed_set t (whole copyBuffer))
      | Inr dst \<Rightarrow> typed_set (whole dst) (whole copyBuffer))"

text \<open>Lines 143 to 182: the data of the result, from the mapped range
  \<open>copyArrayBuffer\<close>.\<close>

definition readData_convert ::
  "texture_type \<Rightarrow> int \<Rightarrow> byte list \<Rightarrow> ArrayBufferView option \<Rightarrow> bool
     \<Rightarrow> (error + ArrayBufferView) option" where
  "readData_convert ty sz copyArrayBuffer dest noDataConversion =
     (if noDataConversion then
        (case dest of
           None \<Rightarrow> Some (allocateAndCopyTypedBuffer ty (Inl sz) copyArrayBuffer)
         | Some d \<Rightarrow> Some (allocateAndCopyTypedBuffer ty (Inr (buffer d)) copyArrayBuffer))
      else
        (case dest of
           None \<Rightarrow>
             if floatFormat ty = 0 then
               Some (case new_Uint8Array sz of
                       Inl e \<Rightarrow> Inl e
                     | Inr d \<Rightarrow> typed_set d (whole copyArrayBuffer))
             else if floatFormat ty = 1 then
               getHalfFloatAsFloatRGBAArrayBuffer sz copyArrayBuffer None
             else
               Some (case new_Float32Array_div sz 4 of
                       Inl e \<Rightarrow> Inl e
                     | Inr d \<Rightarrow>
                        (case Float32Array_whole copyArrayBuffer of
                           Inl e \<Rightarrow> Inl e
                         | Inr c \<Rightarrow> typed_set d c))
         | Some d \<Rightarrow>
             if floatFormat ty = 0 then
               Some (typed_set (whole (buffer d)) (whole copyArrayBuffer))
             else if floatFormat ty = 1 then
               getHalfFloatAsFloatRGBAArrayBuffer sz copyArrayBuffer (Some d)
             else
               Some (case Float32Array_whole (buffer d) of
                       Inl e \<Rightarrow> Inl e
                     | Inr t \<Rightarrow>
                        (case Float32Array_whole copyArrayBuffer of
                           Inl e \<Rightarrow> Inl e
                         | Inr c \<Rightarrow> typed_set t c))))"

text \<open>Lines 193 to 198: the inner loop over \<open>x\<close> and the outer loop over \<open>y\<close>.\<close>

function copyRow :: "int \<Rightarrow> int \<Rightarrow> int \<times> int \<times> byte list \<Rightarrow> int \<times> int \<times> byte list" where
  "copyRow x bytesPerRow (offset, offset2, data2) =
     (if x < bytesPerRow
      then copyRow (x + 1) bytesPerRow
             (offset + 1, offset2 + 1, u8_put data2 offset (u8_get data2 offset2))
      else (offset, offset2, data2))"
  by pat_completeness auto
termination
  by (relation "measure (\<lambda>(x, n, s). nat (n - x))") auto

declare copyRow.simps [simp del]

function compactLoop :: "int \<Rightarrow> int \<Rightarrow> int \<Rightarrow> int \<Rightarrow> int \<times> byte list \<Rightarrow> int \<times> byte list" where
  "compactLoop y height bytesPerRow bytesPerRowAligned (offset, data2) =
     (if y < height
      then let r = copyRow 0 bytesPerRow (offset, y * bytesPerRowAligned, data2)
           in compactLoop (y + 1) height bytesPerRow bytesPerRowAligned (fst r, snd (snd r))
      else (offset, data2))"
  by pat_completeness auto
termination
  by (relation "measure (\<lambda>(y, h, w, a, s). nat (h - y))") auto

declare compactLoop.simps [simp del]

text \<open>Lines 183 to 204, entered when \<^verbatim>\<open>bytesPerRow !== bytesPerRowAligned\<close>.\<close>

definition readData_compact ::
  "int \<Rightarrow> bool \<Rightarrow> int \<Rightarrow> int \<Rightarrow> int \<Rightarrow> ArrayBufferView \<Rightarrow> error + ArrayBufferView" where
  "readData_compact fmt noDataConversion bytesPerRow0 bytesPerRowAligned0 height data =
     (let promoted = (fmt = 1 \<and> \<not> noDataConversion);
          bytesPerRow = (if promoted then bytesPerRow0 * 2 else bytesPerRow0);
          bytesPerRowAligned = (if promoted then bytesPerRowAligned0 * 2 else bytesPerRowAligned0);
          r = compactLoop 1 height bytesPerRow bytesPerRowAligned (bytesPerRow, buffer data)
      in if fmt \<noteq> 0 \<and> \<not> noDataConversion
         then Float32Array_on_div (snd r) (fst r) 4
         else Uint8Array_on (snd r) 0 (fst r))"

text \<open>The fulfilment handler, lines 141 to 210. \<open>None\<close>: it never returns. The
  mapping state of the device buffer (\<^verbatim>\<open>unmap\<close>) is not modelled.\<close>

definition onFulfilled ::
  "WebGPUBufferManager \<Rightarrow> GPUBuffer \<Rightarrow> int \<Rightarrow> int \<Rightarrow> int \<Rightarrow> int \<Rightarrow> texture_type
     \<Rightarrow> ArrayBufferView option \<Rightarrow> bool \<Rightarrow> bool \<Rightarrow> byte list
     \<Rightarrow> (error + ArrayBufferView \<times> WebGPUBufferManager) option" where
  "onFulfilled m gpuBuffer sz height bytesPerRow bytesPerRowAligned ty dest destroyBuffer
       noDataConversion copyArrayBuffer =
     (case readData_convert ty sz copyArrayBuffer dest noDataConversion of
        None \<Rightarrow> None
      | Some (Inl e) \<Rightarrow> Some (Inl e)
      | Some (Inr data) \<Rightarrow>
          (case (if bytesPerRow \<noteq> bytesPerRowAligned
                 then readData_compact (floatFormat ty) noDataConversion bytesPerRow
                        bytesPerRowAligned height data
                 else Inr data) of
             Inl e \<Rightarrow> Some (Inl e)
           | Inr data' \<Rightarrow>
               Some (Inr (data',
                 if destroyBuffer then snd (snd (releaseBuffer m (RawBuffer gpuBuffer)))
                 else m))))"

text \<open>
  \<^verbatim>\<open>readDataFromBuffer\<close>. The call captures \<open>engineId\<close> from the manager \<open>m\<close> as it is
  then; the device settles \<^verbatim>\<open>mapAsync\<close> later, when the manager is \<open>m'\<close>. The outcome of
  the mapping is an input: fulfilled with the mapped range, or rejected with a reason.
  An exception in the fulfilment handler rejects only the inner promise, which nobody
  observes: the returned promise stays unsettled.
\<close>

datatype map_outcome = MapFulfilled "byte list" | MapRejected error

datatype settlement = Resolved ArrayBufferView | Rejected error | Unsettled

definition readDataFromBuffer ::
  "WebGPUBufferManager \<Rightarrow> GPUBuffer \<Rightarrow> int \<Rightarrow> int \<Rightarrow> int \<Rightarrow> int \<Rightarrow> int \<Rightarrow> texture_type
     \<Rightarrow> int \<Rightarrow> ArrayBufferView option \<Rightarrow> bool \<Rightarrow> bool
     \<Rightarrow> map_outcome \<Rightarrow> WebGPUBufferManager \<Rightarrow> settlement \<times> WebGPUBufferManager" where
  "readDataFromBuffer m gpuBuffer sz width height bytesPerRow bytesPerRowAligned ty off dest
       destroyBuffer noDataConversion outcome m' =
     (let capturedId = uniqueId (engine m) in
      case outcome of
        MapFulfilled copyArrayBuffer \<Rightarrow>
          (case onFulfilled m' gpuBuffer sz height bytesPerRow bytesPerRowAligned ty dest
                  destroyBuffer noDataConversion copyArrayBuffer of
             None \<Rightarrow> (Unsettled, m')
           | Some (Inl e) \<Rightarrow> (Unsettled, m')
           | Some (Inr (data, m'')) \<Rightarrow> (Resolved data, m''))
      | MapRejected reason \<Rightarrow>
          if isDisposed (engine m') \<or> uniqueId (engine m') \<noteq> capturedId
          then (Resolved (whole []), m')
          else (Rejected reason, m'))"

subsection \<open>Sequences of operations on one handle\<close>

datatype manager_op =
    OpSetSubData int ArrayBufferView int int
  | OpReleaseBuffer
  | OpDestroyDeferredBuffers

text \<open>One operation on the handle. A call that throws leaves handle and manager as
  they were.\<close>

fun apply_op :: "manager_op \<Rightarrow> WebGPUDataBuffer \<times> WebGPUBufferManager
    \<Rightarrow> WebGPUDataBuffer \<times> WebGPUBufferManager" where
  "apply_op (OpSetSubData dstByteOffset src srcByteOffset len) (h, m) =
     (case setSubData m h dstByteOffset src srcByteOffset len of
        Inl e \<Rightarrow> (h, m)
      | Inr m' \<Rightarrow> (h, m'))"
| "apply_op OpReleaseBuffer (h, m) =
     (case releaseBuffer m (DataBuffer h) of
        (r, DataBuffer h', m') \<Rightarrow> (h', m')
      | (r, RawBuffer b, m') \<Rightarrow> (h, m'))"
| "apply_op OpDestroyDeferredBuffers (h, m) = (h, destroyDeferredBuffers m)"

text \<open>The states a sequence of operations goes through, the first one included.\<close>

fun trace :: "manager_op list \<Rightarrow> WebGPUDataBuffer \<times> WebGPUBufferManager
    \<Rightarrow> (WebGPUDataBuffer \<times> WebGPUBufferManager) list" where
  "trace [] s = [s]"
| "trace (operation # ops) s = s # trace ops (apply_op operation s)"

text \<open>No release of a handle whose count is already 0 or below.\<close>

fun no_over_release :: "manager_op list \<Rightarrow> WebGPUDataBuffer \<times> WebGPUBufferManager \<Rightarrow> bool" where
  "no_over_release [] s = True"
| "no_over_release (operation # ops) s =
     ((operation \<noteq> OpReleaseBuffer \<or> 0 < references (fst s)) \<and>
      no_over_release ops (apply_op operation s))"

subsection \<open>The layout the specification gives the scratch buffer\<close>

text \<open>
  The specification's words for the scratch buffer of \<^verbatim>\<open>set_sub_data\<close>: zero-filled,
  of exactly \<open>byte_length\<close> bytes, with the original bytes of the source window at
  offset \<open>start_pad\<close>.
\<close>

definition scratch_as_specified :: "int \<Rightarrow> byte list \<Rightarrow> int \<Rightarrow> byte list" where
  "scratch_as_specified start_pad window byte_length =
     replicate (nat start_pad) 0 @ window @
     replicate (nat byte_length - nat start_pad - length window) 0"

subsection \<open>Concrete states\<close>

definition engine7 :: WebGPUEngine where
  "engine7 = \<lparr>uniqueId = 7, isDisposed = False\<rparr>"

definition fresh_manager :: WebGPUBufferManager where
  "fresh_manager =
     \<lparr>engine = engine7, device = \<lparr>buffers = [], destroyCalls = []\<rparr>,
      deferredReleaseBuffers = []\<rparr>"

text \<open>A manager with one live device buffer of \<open>n\<close> zero bytes, and the handle of
  that buffer with a given reference count.\<close>

definition manager_with_buffer :: "int \<Rightarrow> WebGPUBufferManager" where
  "manager_with_buffer n =
     \<lparr>engine = engine7,
      device = \<lparr>buffers = [\<lparr>bufsize = n, usage = 0, mappedAtCreation = False,
                 contents = replicate (nat n) 0, destroyed = False\<rparr>], destroyCalls = []\<rparr>,
      deferredReleaseBuffers = []\<rparr>"

text \<open>A source of six bytes in a buffer of its own.\<close>

definition source6 :: ArrayBufferView where
  "source6 = \<lparr>buffer = [9, 1, 2, 3, 4, 5], byteOffset = 0, byteLength = 6\<rparr>"

text \<open>A source of five bytes in a buffer of its own, and a view of five bytes at offset 1
  of a buffer of eight.\<close>

definition source5 :: ArrayBufferView where
  "source5 = \<lparr>buffer = [1, 2, 3, 4, 5], byteOffset = 0, byteLength = 5\<rparr>"

definition inner5 :: ArrayBufferView where
  "inner5 = \<lparr>buffer = [7, 1, 2, 3, 4, 5, 6, 8], byteOffset = 1, byteLength = 5\<rparr>"


definition handle0 :: "int \<Rightarrow> int \<Rightarrow> WebGPUDataBuffer" where
  "handle0 cap refs = \<lparr>underlyingResource = 0, references = refs, capacity = cap, engineId = 7\<rparr>"

section \<open>Properties\<close>

subsection \<open>Bitwise arithmetic\<close>

lemma ToInt32_id: 
  assumes "- 2147483648 \<le> x" "x < 2147483648" shows "ToInt32 x = x"
proof (cases "0 \<le> x")
  case True
  then have "x mod 4294967296 = x" using assms by (simp add: mod_pos_pos_trivial)
  then show ?thesis using assms by (simp add: ToInt32_def Let_def)
next
  case False
  then have "(x + 4294967296) mod 4294967296 = x + 4294967296" 
    using assms by (intro mod_pos_pos_trivial) auto
  then have "x mod 4294967296 = x + 4294967296" by simp
  then show ?thesis using False assms by (simp add: ToInt32_def Let_def)
qed

lemma ToInt32_mod4: "ToInt32 x mod 4 = x mod 4"
proof -
  have a: "(x mod 4294967296) mod 4 = x mod 4"
    by (rule mod_mod_cancel) simp
  have "(x mod 4294967296 - 4294967296) mod 4 = (x mod 4294967296 - 4 * 1073741824) mod 4"
    by simp
  also have "\<dots> = (x mod 4294967296) mod 4"
    by (simp only: mod_diff_right_eq [symmetric, of _ "4 * 1073741824"] mod_mult_self1_is_0 diff_zero)
  finally have b: "(x mod 4294967296 - 4294967296) mod 4 = x mod 4" using a by simp
  show ?thesis using a b by (simp add: ToInt32_def Let_def)
qed

lemma int_and_3: "(x::int) AND 3 = x mod 4"
  using take_bit_eq_mask[of 2 x] by (simp add: take_bit_eq_mod mask_eq_exp_minus_1)

lemma int_and_minus_4: "(x::int) AND (-4) = x - x mod 4"
proof -
  have *: "\<And>n. 2 \<le> n \<Longrightarrow> Suc (Suc (n - 2)) = n" by arith
  have "x AND NOT (mask 2) = push_bit 2 (drop_bit 2 x)"
    by (rule bit_eqI) (auto simp: bit_simps not_less *)
  moreover have "push_bit 2 (drop_bit 2 x) = x - take_bit 2 x"
    using bits_ident[of 2 x] by simp
  moreover have "NOT (mask 2) = (-4::int)" by (simp add: mask_eq_exp_minus_1 not_int_def)
  ultimately show ?thesis by (simp add: take_bit_eq_mod)
qed

lemma bitnot_3: "bitnot 3 = - 4"
  by (simp add: bitnot_def ToInt32_def)

lemma startPre_mod: "startPre d = d mod 4"
  by (simp add: startPre_def bitand_def int_and_3 ToInt32_mod4 ToInt32_id)

lemma startPre_range: "0 \<le> startPre d" "startPre d \<le> 3" "(d - startPre d) mod 4 = 0"
proof -
  show "0 \<le> startPre d" "startPre d \<le> 3" by (simp_all add: startPre_mod)
  have "d - d mod 4 = 4 * (d div 4)" by (simp only: minus_mod_eq_mult_div)
  then show "(d - startPre d) mod 4 = 0" by (simp only: startPre_mod mod_mult_self1_is_0)
qed

lemma startPre_le: "0 \<le> d \<Longrightarrow> startPre d \<le> d"
  by (simp add: startPre_mod zmod_le_nonneg_dividend)

lemma startPre_numeral: "startPre (numeral k) = numeral k mod 4" "startPre 0 = 0" "startPre 1 = 1"
  by (simp_all add: startPre_mod)

lemma bitand_align:
  "- 2147483648 \<le> x \<Longrightarrow> x < 2147483648 \<Longrightarrow> bitand x (bitnot 3) = x - x mod 4"
  by (simp add: bitand_def bitnot_3 ToInt32_id int_and_minus_4)

lemma bitand_align_dvd: "bitand x (bitnot 3) mod 4 = 0"
proof -
  have "ToInt32 x - ToInt32 x mod 4 = 4 * (ToInt32 x div 4)"
    by (simp only: minus_mod_eq_mult_div)
  moreover have "bitand x (bitnot 3) = ToInt32 x AND (- 4)"
    by (simp add: bitand_def bitnot_3 ToInt32_id)
  ultimately show ?thesis
    by (simp only: int_and_minus_4 mod_mult_self1_is_0)
qed

lemma bitand_numeral_align:
  "bitand (numeral k) (bitnot 3) = ToInt32 (numeral k) - ToInt32 (numeral k) mod 4"
  by (simp add: bitand_def bitnot_3 ToInt32_id int_and_minus_4)

lemma alignedByteLength_eq:
  assumes "0 \<le> len" "0 \<le> pre" "len + pre + 3 < 2147483648"
  shows "alignedByteLength len pre = len + pre + 3 - (len + pre + 3) mod 4"
  using assms by (simp add: alignedByteLength_def bitand_align)

lemma alignedByteLength_bounds:
  assumes "0 \<le> len" "0 \<le> pre" "len + pre + 3 < 2147483648"
  shows "len + pre \<le> alignedByteLength len pre" "alignedByteLength len pre < len + pre + 4"
    "alignedByteLength len pre mod 4 = 0"
proof -
  have m: "0 \<le> (len + pre + 3) mod 4" "(len + pre + 3) mod 4 < 4" by simp_all
  have e: "alignedByteLength len pre = len + pre + 3 - (len + pre + 3) mod 4"
    by (rule alignedByteLength_eq [OF assms])
  show "len + pre \<le> alignedByteLength len pre" using m unfolding e by linarith
  show "alignedByteLength len pre < len + pre + 4" using m unfolding e by linarith
  show "alignedByteLength len pre mod 4 = 0"
    by (simp add: alignedByteLength_def bitand_align_dvd)
qed

subsection \<open>The two branches of the upload\<close>

text \<open>The direct branch: the source is large enough from the start of the view.\<close>

lemma setSubData_args_direct:
  assumes "\<not> backingBufferSize src <
             alignedByteLength (originalByteLength src so len) (startPre dst)"
  shows "setSubData_args dst src so len =
           Inr (dst - startPre dst, src, so - startPre dst,
                alignedByteLength (originalByteLength src so len) (startPre dst))"
  using assms by (simp add: setSubData_args_def Let_def)

text \<open>The scratch branch: the bytes from the adjusted offset, then zeros.\<close>

lemma setSubData_args_scratch:
  assumes L: "L = originalByteLength src so len" and p: "p = startPre dst"
    and A: "A = alignedByteLength L p"
    and short: "backingBufferSize src < A"
    and lo: "0 \<le> byteOffset src + so - p"
    and nonneg: "0 \<le> L"
    and hi: "byteOffset src + so - p + L \<le> int (length (buffer src))"
    and LA: "L \<le> A"
  shows "setSubData_args dst src so len =
           Inr (dst - p,
                \<lparr>buffer = take (nat L) (drop (nat (byteOffset src + so - p)) (buffer src)) @
                           replicate (nat A - nat L) 0,
                 byteOffset = 0, byteLength = A\<rparr>, 0, A)"
proof -
  have A0: "0 \<le> A" using nonneg LA by simp
  have n: "new_Uint8Array A = Inr \<lparr>buffer = replicate (nat A) 0, byteOffset = 0, byteLength = A\<rparr>"
    using A0 by (simp add: new_Uint8Array_def)
  have u: "Uint8Array_on (buffer src) (byteOffset src + (so - p)) L =
             Inr \<lparr>buffer = buffer src, byteOffset = byteOffset src + (so - p), byteLength = L\<rparr>"
    using lo nonneg hi by (simp add: Uint8Array_on_def)
  have t: "typed_set \<lparr>buffer = replicate (nat A) 0, byteOffset = 0, byteLength = A\<rparr>
             \<lparr>buffer = buffer src, byteOffset = byteOffset src + (so - p), byteLength = L\<rparr> =
           Inr \<lparr>buffer = take (nat L) (drop (nat (byteOffset src + so - p)) (buffer src)) @
                           replicate (nat A - nat L) 0,
                 byteOffset = 0, byteLength = A\<rparr>"
    using LA by (simp add: typed_set_def view_bytes_def algebra_simps)
  show ?thesis
    using short unfolding setSubData_args_def Let_def L [symmetric] p [symmetric] A [symmetric]
    by (simp add: n u t)
qed

text \<open>Before the start of the backing storage the scratch copy cannot be taken.\<close>

lemma setSubData_args_scratch_raises:
  assumes "backingBufferSize src <
             alignedByteLength (originalByteLength src so len) (startPre dst)"
    and "byteOffset src + so - startPre dst < 0"
  shows "setSubData_args dst src so len = Inl RangeError"
  using assms
  by (simp add: setSubData_args_def Let_def new_Uint8Array_def Uint8Array_on_def
      split: sum.splits)

text \<open>A write the device accepts, and the contents it leaves.\<close>

lemma setRawData_writes:
  assumes "0 \<le> d" "0 \<le> off + byteOffset s" "0 \<le> n"
    and "off + byteOffset s + n \<le> int (length (buffer s))" "n mod 4 = 0"
    and "b < length (buffers (device m))" "\<not> destroyed (buffers (device m) ! b)"
    and "d mod 4 = 0" "d + n \<le> bufsize (buffers (device m) ! b)"
  shows "setRawData m b d s off n =
           Inr (m\<lparr>device := (device m)\<lparr>buffers := (buffers (device m))
                  [b := (buffers (device m) ! b)\<lparr>contents :=
                     take (nat d) (contents (buffers (device m) ! b)) @
                     take (nat n) (drop (nat (off + byteOffset s)) (buffer s)) @
                     drop (nat d + nat n) (contents (buffers (device m) ! b))\<rparr>]\<rparr>\<rparr>)"
  using assms by (simp add: setRawData_def queue_writeBuffer_def Let_def)

text \<open>The definitions that evaluate an upload on concrete data.\<close>

lemmas upload_eval =
  setSubData_def setSubData_args_def originalByteLength_def startPre_numeral
  alignedByteLength_def bitand_numeral_align ToInt32_def backingBufferSize_def
  new_Uint8Array_def Uint8Array_on_def typed_set_def view_bytes_def
  setRawData_def queue_writeBuffer_def Let_def

subsection \<open>Creation\<close>

lemma alignedLength_eq: "alignedLength viewOrSize = alignedByteLength (requestedLength viewOrSize) 0"
  by (cases viewOrSize) (simp_all add: alignedByteLength_def)

lemma createRawBuffer_allocates:
  assumes "0 \<le> alignedLength viewOrSize"
  shows "createRawBuffer m viewOrSize flags mapped =
     Inr (length (buffers (device m)),
          m\<lparr>device := (device m)\<lparr>buffers := buffers (device m) @
             [\<lparr>bufsize = alignedLength viewOrSize, usage = flags, mappedAtCreation = mapped,
               contents = replicate (nat (alignedLength viewOrSize)) 0, destroyed = False\<rparr>]\<rparr>\<rparr>)"
  using assms by (simp add: createRawBuffer_def device_createBuffer_def)

text \<open>The upload of the initial view into the buffer just created goes through.\<close>

lemma initial_upload_succeeds:
  assumes v: "valid_view v" and N: "byteLength v \<le> 2147483644"
    and b: "b < length (buffers (device m))" "\<not> destroyed (buffers (device m) ! b)"
    and sz: "bufsize (buffers (device m) ! b) = alignedByteLength (byteLength v) 0"
    and h: "underlyingResource h = b"
  shows "\<exists>c. setSubData m h 0 v 0 0 =
           Inr (m\<lparr>device := (device m)\<lparr>buffers := (buffers (device m))
                  [b := (buffers (device m) ! b)\<lparr>contents := c\<rparr>]\<rparr>\<rparr>)"
proof -
  define A where "A = alignedByteLength (byteLength v) 0"
  have N0: "0 \<le> byteLength v" and off0: "0 \<le> byteOffset v"
    and inside: "byteOffset v + byteLength v \<le> int (length (buffer v))"
    using v by (simp_all add: valid_view_def)
  have L: "originalByteLength v 0 0 = byteLength v" by (simp add: originalByteLength_def)
  have p: "startPre 0 = 0" by (simp add: startPre_mod)
  have bounds: "byteLength v \<le> A" "A mod 4 = 0"
    using alignedByteLength_bounds [of "byteLength v" 0] N0 N by (simp_all add: A_def)
  have A0: "0 \<le> A" using bounds N0 by simp
  have szA: "bufsize (buffers (device m) ! b) = A" using sz by (simp add: A_def)
  show ?thesis
  proof (cases "backingBufferSize v < A")
    case True
    define tmp where "tmp = \<lparr>buffer = take (nat (byteLength v))
                               (drop (nat (byteOffset v + 0 - 0)) (buffer v)) @
                           replicate (nat A - nat (byteLength v)) 0,
                 byteOffset = 0, byteLength = A\<rparr>"
    have "setSubData_args 0 v 0 0 = Inr (0 - 0, tmp, 0, A)"
      unfolding tmp_def
      by (rule setSubData_args_scratch [where L = "byteLength v" and p = 0])
         (use True N0 off0 inside bounds in \<open>simp_all add: L p A_def\<close>)
    then have args: "setSubData_args 0 v 0 0 = Inr (0, tmp, 0, A)" by simp
    have "nat (byteLength v) \<le> length (buffer v) - nat (byteOffset v)"
      using N0 off0 inside by linarith
    moreover have "int (nat (byteLength v) + (nat A - nat (byteLength v))) = A"
      using N0 bounds by linarith
    ultimately have len: "int (length (buffer tmp)) = A"
      by (simp add: tmp_def min_absorb2 del: of_nat_add)
    have w: "setRawData m b 0 tmp 0 A =
           Inr (m\<lparr>device := (device m)\<lparr>buffers := (buffers (device m))
                  [b := (buffers (device m) ! b)\<lparr>contents :=
                     take (nat 0) (contents (buffers (device m) ! b)) @
                     take (nat A) (drop (nat (0 + byteOffset tmp)) (buffer tmp)) @
                     drop (nat 0 + nat A) (contents (buffers (device m) ! b))\<rparr>]\<rparr>\<rparr>)"
    proof (rule setRawData_writes)
      show "0 + byteOffset tmp + A \<le> int (length (buffer tmp))"
        using len by (simp add: tmp_def)
    qed (use A0 bounds b szA in \<open>simp_all add: tmp_def\<close>)
    show ?thesis
      unfolding setSubData_def args by (simp only: prod.case sum.case h w) blast
  next
    case False
    have args: "setSubData_args 0 v 0 0 = Inr (0, v, 0, A)"
      using setSubData_args_direct [of v 0 0 0] False by (simp add: L p A_def)
    have w: "setRawData m b 0 v 0 A =
           Inr (m\<lparr>device := (device m)\<lparr>buffers := (buffers (device m))
                  [b := (buffers (device m) ! b)\<lparr>contents :=
                     take (nat 0) (contents (buffers (device m) ! b)) @
                     take (nat A) (drop (nat (0 + byteOffset v)) (buffer v)) @
                     drop (nat 0 + nat A) (contents (buffers (device m) ! b))\<rparr>]\<rparr>\<rparr>)"
    proof (rule setRawData_writes)
      show "0 + byteOffset v + A \<le> int (length (buffer v))"
        using False by (simp add: backingBufferSize_def)
    qed (use A0 bounds b szA off0 in simp_all)
    show ?thesis
      unfolding setSubData_def args by (simp only: prod.case sum.case h w) blast
  qed
qed

text \<open>
  C9, as amended. For every requested size, or initial view, of \<open>N\<close> bytes with
  \<open>0 \<le> N \<le> 2\<^sup>3\<^sup>1 - 4\<close>, the raw device buffer is allocated with size
  \<^verbatim>\<open>(N + 3) & ~3\<close>, which is at least \<open>N\<close>, less than \<open>N + 4\<close> and a multiple of 4,
  and the handle that \<^verbatim>\<open>createBuffer\<close> returns has capacity \<open>N\<close>, one reference and
  the engine's id.
\<close>

theorem createBuffer_aligned_allocation:
  assumes "0 \<le> requestedLength viewOrSize" and "requestedLength viewOrSize \<le> 2147483644"
    and "valid_view_or_size viewOrSize"
  shows "alignedLength viewOrSize = bitand (requestedLength viewOrSize + 3) (bitnot 3)
    \<and> requestedLength viewOrSize \<le> alignedLength viewOrSize
    \<and> alignedLength viewOrSize < requestedLength viewOrSize + 4
    \<and> alignedLength viewOrSize mod 4 = 0
    \<and> (\<exists>raw. createRawBuffer m viewOrSize flags mapped =
           Inr (length (buffers (device m)), raw)
         \<and> bufsize (buffers (device raw) ! length (buffers (device m))) =
             alignedLength viewOrSize)
    \<and> (\<exists>h m'. createBuffer m viewOrSize flags = Inr (h, m')
         \<and> capacity h = requestedLength viewOrSize \<and> references h = 1
         \<and> engineId h = uniqueId (engine m)
         \<and> underlyingResource h = length (buffers (device m))
         \<and> bufsize (buffers (device m') ! underlyingResource h) = alignedLength viewOrSize)"
proof -
  define N where "N = requestedLength viewOrSize"
  define A where "A = alignedLength viewOrSize"
  have AN: "A = alignedByteLength N 0" by (simp add: A_def N_def alignedLength_eq)
  have bounds: "N \<le> A" "A < N + 4" "A mod 4 = 0"
    using alignedByteLength_bounds [of N 0] assms(1,2) by (simp_all add: AN N_def)
  have A0: "0 \<le> A" using bounds assms(1) by (simp add: N_def)
  have formula: "A = bitand (N + 3) (bitnot 3)" by (simp add: AN alignedByteLength_def)
  define obj where "obj = \<lparr>bufsize = A, usage = flags, mappedAtCreation = False,
               contents = replicate (nat A) 0, destroyed = False\<rparr>"
  define m1 where "m1 = m\<lparr>device := (device m)\<lparr>buffers := buffers (device m) @ [obj]\<rparr>\<rparr>"
  define b where "b = length (buffers (device m))"
  have raw: "createRawBuffer m viewOrSize flags False = Inr (b, m1)"
    using createRawBuffer_allocates [of viewOrSize m flags False] A0
    by (simp add: A_def m1_def obj_def b_def)
  have rawany: "\<exists>raw. createRawBuffer m viewOrSize flags mapped =
           Inr (length (buffers (device m)), raw)
         \<and> bufsize (buffers (device raw) ! length (buffers (device m))) = A"
    using createRawBuffer_allocates [of viewOrSize m flags mapped] A0
    by (simp add: A_def)
  define h where "h = \<lparr>underlyingResource = b, references = 1, capacity = N,
                engineId = uniqueId (engine m)\<rparr>"
  have nth1: "buffers (device m1) ! b = obj" by (simp add: m1_def b_def)
  have "\<exists>m'. createBuffer m viewOrSize flags = Inr (h, m') \<and>
          bufsize (buffers (device m') ! b) = A"
  proof (cases viewOrSize)
    case (Size n)
    then show ?thesis
      using raw nth1 by (simp add: createBuffer_def h_def N_def m1_def obj_def)
  next
    case (View v)
    have "\<exists>c. setSubData m1 h 0 v 0 0 =
           Inr (m1\<lparr>device := (device m1)\<lparr>buffers := (buffers (device m1))
                  [b := (buffers (device m1) ! b)\<lparr>contents := c\<rparr>]\<rparr>\<rparr>)"
    proof (rule initial_upload_succeeds)
      show "valid_view v" using assms(3) View by simp
      show "byteLength v \<le> 2147483644" using assms(2) View by simp
      show "b < length (buffers (device m1))" by (simp add: m1_def b_def)
      show "\<not> destroyed (buffers (device m1) ! b)" by (simp add: nth1 obj_def)
      show "bufsize (buffers (device m1) ! b) = alignedByteLength (byteLength v) 0"
        using AN View by (simp add: nth1 obj_def N_def)
      show "underlyingResource h = b" by (simp add: h_def)
    qed
    then obtain c where up: "setSubData m1 h 0 v 0 0 =
           Inr (m1\<lparr>device := (device m1)\<lparr>buffers := (buffers (device m1))
                  [b := (buffers (device m1) ! b)\<lparr>contents := c\<rparr>]\<rparr>\<rparr>)" by blast
    have "createBuffer m viewOrSize flags =
            Inr (h, m1\<lparr>device := (device m1)\<lparr>buffers := (buffers (device m1))
                  [b := (buffers (device m1) ! b)\<lparr>contents := c\<rparr>]\<rparr>\<rparr>)"
      using raw up View by (simp add: createBuffer_def h_def N_def m1_def)
    moreover have "bufsize (buffers (device (m1\<lparr>device := (device m1)\<lparr>buffers := (buffers (device m1))
                  [b := (buffers (device m1) ! b)\<lparr>contents := c\<rparr>]\<rparr>\<rparr>)) ! b) = A"
      by (simp add: nth1 obj_def m1_def b_def)
    ultimately show ?thesis by blast
  qed
  then obtain m' where cb: "createBuffer m viewOrSize flags = Inr (h, m')"
    and sz: "bufsize (buffers (device m') ! b) = A" by blast
  have "\<exists>h m'. createBuffer m viewOrSize flags = Inr (h, m')
         \<and> capacity h = N \<and> references h = 1
         \<and> engineId h = uniqueId (engine m)
         \<and> underlyingResource h = length (buffers (device m))
         \<and> bufsize (buffers (device m') ! underlyingResource h) = A"
    using cb sz by (intro exI [of _ h] exI [of _ m']) (simp add: h_def b_def)
  then show ?thesis
    using formula bounds rawany unfolding A_def N_def by simp
qed

theorem createBuffer_aligned_allocation_witness:
  "0 \<le> requestedLength (View source6) \<and> requestedLength (View source6) \<le> 2147483644
   \<and> valid_view_or_size (View source6)
   \<and> alignedLength (View source6) = 8
   \<and> createBuffer fresh_manager (View source6) 0 =
       Inr (handle0 6 1,
            \<lparr>engine = engine7,
             device = \<lparr>buffers = [\<lparr>bufsize = 8, usage = 0, mappedAtCreation = False,
                 contents = [9, 1, 2, 3, 4, 5, 0, 0], destroyed = False\<rparr>], destroyCalls = []\<rparr>,
             deferredReleaseBuffers = []\<rparr>)"
proof -
  have a: "0 \<le> requestedLength (View source6)" by (simp add: source6_def)
  have b: "requestedLength (View source6) \<le> 2147483644" by (simp add: source6_def)
  have c: "valid_view_or_size (View source6)" by (simp add: source6_def valid_view_def)
  have d: "alignedLength (View source6) = 8"
    by (simp add: source6_def bitand_numeral_align ToInt32_def)
  from createBuffer_aligned_allocation [OF a b c, of fresh_manager 0 False]
  obtain h m' where cb: "createBuffer fresh_manager (View source6) 0 = Inr (h, m')"
    and h: "capacity h = requestedLength (View source6)" "references h = 1"
     "engineId h = uniqueId (engine fresh_manager)"
     "underlyingResource h = length (buffers (device fresh_manager))"
    by blast
  have hh: "h = handle0 6 1"
    using h by (cases h) (simp add: handle0_def source6_def fresh_manager_def engine7_def)
  have "m' = \<lparr>engine = engine7,
             device = \<lparr>buffers = [\<lparr>bufsize = 8, usage = 0, mappedAtCreation = False,
                 contents = [9, 1, 2, 3, 4, 5, 0, 0], destroyed = False\<rparr>], destroyCalls = []\<rparr>,
             deferredReleaseBuffers = []\<rparr>"
    using cb
    by (simp add: createBuffer_def createRawBuffer_def device_createBuffer_def d
        setSubData_def setSubData_args_def originalByteLength_def startPre_numeral
        alignedByteLength_def bitand_numeral_align ToInt32_def backingBufferSize_def
        new_Uint8Array_def Uint8Array_on_def typed_set_def view_bytes_def
        setRawData_def queue_writeBuffer_def Let_def
        source6_def fresh_manager_def numeral_eq_Suc)
  then show ?thesis using a b c d cb hh by simp
qed

text \<open>
  C9 as stated fails from \<open>N = 2\<^sup>3\<^sup>1 - 3\<close> on: \<^verbatim>\<open>&\<close> works on 32-bit signed integers,
  \<open>N + 3\<close> wraps to \<open>-2\<^sup>3\<^sup>1\<close>, the aligned size is below \<open>N\<close>, and the device refuses the
  negative size.
\<close>

theorem alignedLength_wraps_at_2GiB:
  "alignedLength (Size 2147483645) = - 2147483648
   \<and> alignedLength (Size 2147483645) < requestedLength (Size 2147483645)
   \<and> createBuffer fresh_manager (Size 2147483645) 0 = Inl TypeError"
  by (simp add: bitand_numeral_align ToInt32_def createBuffer_def createRawBuffer_def
      device_createBuffer_def)

subsection \<open>The alignment-corrected upload\<close>

text \<open>
  C3, as amended. \<^verbatim>\<open>setSubData\<close> completes without raising, and hands the device a
  write whose destination offset and length are multiples of 4 and whose source range
  lies inside the effective source, whenever the adjusted source offset
  \<open>byteOffset + srcByteOffset - startPre\<close> is not negative and the bytes read from
  there lie inside the source's backing storage: the original byte length of them when
  the scratch copy is built, the aligned byte length otherwise. (The destination window
  is taken to lie inside a live device buffer, and the length to be below \<open>2\<^sup>3\<^sup>1 - 6\<close>.)
\<close>

theorem setSubData_completes:
  assumes L: "L = originalByteLength src so len" and p: "p = startPre dst"
    and A: "A = alignedByteLength L p"
    and nonneg: "0 \<le> L" and small: "L \<le> 2147483641"
    and lo: "0 \<le> byteOffset src + so - p"
    and hi: "byteOffset src + so - p + (if backingBufferSize src < A then L else A)
               \<le> int (length (buffer src))"
    and dst0: "0 \<le> dst"
    and live: "underlyingResource h < length (buffers (device m))"
              "\<not> destroyed (buffers (device m) ! underlyingResource h)"
    and room: "dst - p + A \<le> bufsize (buffers (device m) ! underlyingResource h)"
  shows "\<exists>s off m'. setSubData_args dst src so len = Inr (dst - p, s, off, A)
           \<and> (dst - p) mod 4 = 0 \<and> A mod 4 = 0
           \<and> 0 \<le> off + byteOffset s \<and> off + byteOffset s + A \<le> int (length (buffer s))
           \<and> setSubData m h dst src so len = Inr m'"
proof -
  have p03: "0 \<le> p" "p \<le> 3" and d4: "(dst - p) mod 4 = 0" and pd: "p \<le> dst"
    using startPre_range [of dst] startPre_le [OF dst0] by (simp_all add: p)
  have bounds: "L + p \<le> A" "A mod 4 = 0"
    using alignedByteLength_bounds [of L p] nonneg small p03 by (simp_all add: A)
  have A0: "0 \<le> A" and LA: "L \<le> A" using bounds nonneg p03 by simp_all
  obtain s off where args: "setSubData_args dst src so len = Inr (dst - p, s, off, A)"
    and lo': "0 \<le> off + byteOffset s"
    and hi': "off + byteOffset s + A \<le> int (length (buffer s))"
  proof (cases "backingBufferSize src < A")
    case True
    define tmp where "tmp = \<lparr>buffer = take (nat L) (drop (nat (byteOffset src + so - p)) (buffer src)) @
                           replicate (nat A - nat L) 0,
                 byteOffset = 0, byteLength = A\<rparr>"
    have hiL: "byteOffset src + so - p + L \<le> int (length (buffer src))"
      using hi True by simp
    have a: "setSubData_args dst src so len = Inr (dst - p, tmp, 0, A)"
      unfolding tmp_def
      by (rule setSubData_args_scratch [OF L p A True lo nonneg hiL LA])
    have "nat L \<le> length (buffer src) - nat (byteOffset src + so - p)"
      using hiL lo nonneg by linarith
    moreover have "int (nat L + (nat A - nat L)) = A" using nonneg LA by linarith
    ultimately have "int (length (buffer tmp)) = A"
      by (simp add: tmp_def min_absorb2 del: of_nat_add)
    then show ?thesis using that [of tmp 0] a by (simp add: tmp_def)
  next
    case False
    have a: "setSubData_args dst src so len = Inr (dst - p, src, so - p, A)"
      using setSubData_args_direct [of src so len dst] False by (simp add: L p A)
    show ?thesis using that [of src "so - p"] a lo hi False by (simp add: algebra_simps)
  qed
  have "setRawData m (underlyingResource h) (dst - p) s off A =
           Inr (m\<lparr>device := (device m)\<lparr>buffers := (buffers (device m))
                  [underlyingResource h := (buffers (device m) ! underlyingResource h)\<lparr>contents :=
                     take (nat (dst - p)) (contents (buffers (device m) ! underlyingResource h)) @
                     take (nat A) (drop (nat (off + byteOffset s)) (buffer s)) @
                     drop (nat (dst - p) + nat A)
                       (contents (buffers (device m) ! underlyingResource h))\<rparr>]\<rparr>\<rparr>)"
    by (rule setRawData_writes) (use pd lo' hi' A0 bounds live d4 room in simp_all)
  then have "\<exists>m'. setSubData m h dst src so len = Inr m'"
    unfolding setSubData_def args by (simp only: prod.case sum.case) blast
  then obtain m' where fin: "setSubData m h dst src so len = Inr m'" ..
  show ?thesis
    by (intro exI [of _ s] exI [of _ off] exI [of _ m'])
       (simp add: args d4 bounds lo' hi' fin)
qed

theorem setSubData_completes_witness:
  "setSubData_args 0 source6 0 0 =
     Inr (0, \<lparr>buffer = [9, 1, 2, 3, 4, 5, 0, 0], byteOffset = 0, byteLength = 8\<rparr>, 0, 8)
   \<and> setSubData (manager_with_buffer 8) (handle0 6 1) 0 source6 0 0 =
     Inr ((manager_with_buffer 8)\<lparr>device := \<lparr>buffers = [\<lparr>bufsize = 8, usage = 0,
            mappedAtCreation = False, contents = [9, 1, 2, 3, 4, 5, 0, 0],
            destroyed = False\<rparr>], destroyCalls = []\<rparr>\<rparr>)"
proof -
  have "\<exists>s off m'. setSubData_args 0 source6 0 0 = Inr (0 - 0, s, off, 8)
           \<and> (0 - 0) mod 4 = (0::int) \<and> 8 mod 4 = (0::int)
           \<and> 0 \<le> off + byteOffset s \<and> off + byteOffset s + 8 \<le> int (length (buffer s))
           \<and> setSubData (manager_with_buffer 8) (handle0 6 1) 0 source6 0 0 = Inr m'"
    by (rule setSubData_completes [where L = 6])
       (simp_all add: source6_def manager_with_buffer_def handle0_def upload_eval)
  then obtain m' where "setSubData (manager_with_buffer 8) (handle0 6 1) 0 source6 0 0 = Inr m'"
    by blast
  then show ?thesis
    by (simp add: source6_def manager_with_buffer_def handle0_def upload_eval numeral_eq_Suc)
qed

text \<open>
  C3 as stated fails: an unaligned write of a view that has no byte before it in its
  backing buffer raises a RangeError, because the scratch copy starts one byte before
  the buffer.
\<close>

theorem setSubData_raises_before_buffer_start:
  "setSubData (manager_with_buffer 8) (handle0 8 1) 1 source5 0 0 = Inl RangeError"
  by (simp add: source5_def manager_with_buffer_def handle0_def upload_eval)

text \<open>
  C2, as amended. Whenever the backing storage of the source, counted from the start of
  the view, is shorter than the aligned byte length, \<^verbatim>\<open>setSubData\<close> builds a scratch buffer
  of exactly that aligned length. Its first \<open>L\<close> bytes (\<open>L\<close> the original byte length)
  are the bytes of the backing storage from the adjusted source offset
  \<open>byteOffset + srcByteOffset - startPre\<close> on: the window's bytes start at scratch
  offset \<open>startPre\<close>, and before them stand the \<open>startPre\<close> bytes that precede the window
  in the backing storage, not zeros; the bytes from \<open>startPre + L\<close> on are zero. The copy
  reads the backing storage from the adjusted offset, which is outside the view when
  \<open>startPre\<close> exceeds the source offset; it has to lie inside the backing storage, or
  the copy raises. With \<open>startPre = 0\<close> this is the layout of the specification.
\<close>

theorem setSubData_scratch_buffer:
  assumes L: "L = originalByteLength src so len" and p: "p = startPre dst"
    and A: "A = alignedByteLength L p"
    and nonneg: "0 \<le> L" and small: "L \<le> 2147483641"
    and short: "backingBufferSize src < A"
    and lo: "0 \<le> byteOffset src + so - p"
    and hi: "byteOffset src + so - p + L \<le> int (length (buffer src))"
  shows "\<exists>tmp. setSubData_args dst src so len = Inr (dst - p, tmp, 0, A)
           \<and> byteOffset tmp = 0 \<and> byteLength tmp = A \<and> int (length (buffer tmp)) = A
           \<and> (\<forall>i. 0 \<le> i \<and> i < L \<longrightarrow>
                 buffer tmp ! nat i = buffer src ! nat (byteOffset src + so - p + i))
           \<and> (\<forall>i. p + L \<le> i \<and> i < A \<longrightarrow> buffer tmp ! nat i = 0)
           \<and> (p = 0 \<longrightarrow> buffer tmp =
                 scratch_as_specified p
                   (take (nat L) (drop (nat (byteOffset src + so)) (buffer src))) A)"
proof -
  have p03: "0 \<le> p" "p \<le> 3" using startPre_range [of dst] by (simp_all add: p)
  have bounds: "L + p \<le> A" "A mod 4 = 0"
    using alignedByteLength_bounds [of L p] nonneg small p03 by (simp_all add: A)
  have LA: "L \<le> A" using bounds p03 by simp
  define X where "X = take (nat L) (drop (nat (byteOffset src + so - p)) (buffer src))"
  define tmp where "tmp = \<lparr>buffer = X @ replicate (nat A - nat L) 0,
                 byteOffset = 0, byteLength = A\<rparr>"
  have args: "setSubData_args dst src so len = Inr (dst - p, tmp, 0, A)"
    unfolding tmp_def X_def by (rule setSubData_args_scratch [OF L p A short lo nonneg hi LA])
  have "nat L \<le> length (buffer src) - nat (byteOffset src + so - p)"
    using hi lo nonneg by linarith
  then have lenX: "length X = nat L" by (simp add: X_def min_absorb2)
  have len: "int (length (buffer tmp)) = A"
    using nonneg LA by (simp add: tmp_def lenX del: of_nat_add)
  have front: "buffer tmp ! nat i = buffer src ! nat (byteOffset src + so - p + i)"
    if "0 \<le> i" "i < L" for i
  proof -
    have i: "nat i < nat L" using that by linarith
    have "buffer tmp ! nat i = X ! nat i" using i by (simp add: tmp_def nth_append lenX)
    also have "\<dots> = buffer src ! (nat (byteOffset src + so - p) + nat i)"
    proof -
      have "nat (byteOffset src + so - p) \<le> length (buffer src)"
        using hi lo nonneg by linarith
      then show ?thesis using i unfolding X_def by (simp add: nth_take nth_drop)
    qed
    also have "nat (byteOffset src + so - p) + nat i = nat (byteOffset src + so - p + i)"
      using lo that by linarith
    finally show ?thesis .
  qed
  have tail: "buffer tmp ! nat i = 0" if "p + L \<le> i" "i < A" for i
  proof -
    have "\<not> i < L" "nat i - nat L < nat A - nat L" using that p03 nonneg by linarith+
    then show ?thesis by (simp add: tmp_def nth_append lenX)
  qed
  have spec: "buffer tmp = scratch_as_specified p
                   (take (nat L) (drop (nat (byteOffset src + so)) (buffer src))) A" if "p = 0"
    using that lenX by (simp add: scratch_as_specified_def tmp_def X_def)
  show ?thesis
    by (intro exI [of _ tmp]) (simp add: args len front tail spec, simp add: tmp_def)
qed

theorem setSubData_scratch_buffer_witness:
  "setSubData_args 1 inner5 0 0 =
     Inr (0, \<lparr>buffer = [7, 1, 2, 3, 4, 0, 0, 0], byteOffset = 0, byteLength = 8\<rparr>, 0, 8)
   \<and> setSubData_args 0 source6 0 0 =
     Inr (0, \<lparr>buffer = scratch_as_specified 0 [9, 1, 2, 3, 4, 5] 8, byteOffset = 0,
              byteLength = 8\<rparr>, 0, 8)"
proof -
  have "\<exists>tmp. setSubData_args 1 inner5 0 0 = Inr (1 - 1, tmp, 0, 8)
           \<and> byteOffset tmp = 0 \<and> byteLength tmp = 8 \<and> int (length (buffer tmp)) = 8
           \<and> (\<forall>i. 0 \<le> i \<and> i < 5 \<longrightarrow>
                 buffer tmp ! nat i = buffer inner5 ! nat (byteOffset inner5 + 0 - 1 + i))
           \<and> (\<forall>i. 1 + 5 \<le> i \<and> i < 8 \<longrightarrow> buffer tmp ! nat i = 0)
           \<and> ((1::int) = 0 \<longrightarrow> buffer tmp =
                 scratch_as_specified 1
                   (take (nat 5) (drop (nat (byteOffset inner5 + 0)) (buffer inner5))) 8)"
    by (rule setSubData_scratch_buffer)
       (simp_all add: inner5_def upload_eval)
  then obtain tmp where "setSubData_args 1 inner5 0 0 = Inr (1 - 1, tmp, 0, 8)" by blast
  then show ?thesis
    by (simp add: inner5_def source6_def upload_eval scratch_as_specified_def numeral_eq_Suc)
qed

text \<open>
  C2 as stated fails at a destination offset that is not a multiple of 4. The source
  has six bytes, the window is its bytes 1 to 5 and goes to destination offset 1. The
  scratch buffer holds the byte before the window first and loses the window's last
  byte; the specification's layout has a zero first and all five bytes.
\<close>

theorem setSubData_scratch_differs_from_specified:
  "setSubData_args 1 source6 1 5 =
     Inr (0, \<lparr>buffer = [9, 1, 2, 3, 4, 0, 0, 0], byteOffset = 0, byteLength = 8\<rparr>, 0, 8)
   \<and> scratch_as_specified (startPre 1) (take 5 (drop 1 (view_bytes source6)))
        (alignedByteLength 5 (startPre 1)) = [0, 1, 2, 3, 4, 5, 0, 0]
   \<and> int (length (buffer source6)) - (byteOffset source6 + 1 - startPre 1)
        < alignedByteLength 5 (startPre 1)"
  by (simp add: source6_def upload_eval scratch_as_specified_def numeral_eq_Suc)

lemma read_back_window:
  fixes c :: "'a list"
  assumes "d \<le> length c" "k + A \<le> length xs" "p + L \<le> A"
  shows "take L (drop (d + p) (take d c @ take A (drop k xs) @ drop (d + A) c)) =
         take L (drop (k + p) xs)"
proof -
  have "drop (d + p) (take d c @ take A (drop k xs) @ drop (d + A) c) =
        drop p (take A (drop k xs)) @ drop (d + A) c"
    using assms by (simp add: min_absorb2)
  moreover have "drop p (take A (drop k xs)) = take (A - p) (drop (k + p) xs)"
    by (simp add: drop_take add.commute)
  moreover have "L \<le> length (take (A - p) (drop (k + p) xs))"
    using assms by simp
  ultimately show ?thesis using assms by (simp add: min_absorb1)
qed

text \<open>
  The window reads back the source bytes on the direct branch, and on the scratch branch
  when the destination offset is a multiple of 4. (The contents of a device buffer are as
  long as its size.)
\<close>

lemma setSubData_roundtrip:
  assumes L: "L = originalByteLength src so len" and p: "p = startPre dst"
    and A: "A = alignedByteLength L p"
    and nonneg: "0 \<le> L" and small: "L \<le> 2147483641"
    and lo: "0 \<le> byteOffset src + so - p"
    and hi: "byteOffset src + so - p + (if backingBufferSize src < A then L else A)
               \<le> int (length (buffer src))"
    and dst0: "0 \<le> dst"
    and live: "underlyingResource h < length (buffers (device m))"
              "\<not> destroyed (buffers (device m) ! underlyingResource h)"
    and room: "dst - p + A \<le> bufsize (buffers (device m) ! underlyingResource h)"
    and sized: "int (length (contents (buffers (device m) ! underlyingResource h))) =
                bufsize (buffers (device m) ! underlyingResource h)"
    and good: "p = 0 \<or> \<not> backingBufferSize src < A"
  shows "\<exists>m'. setSubData m h dst src so len = Inr m'
           \<and> device_read (device m') (underlyingResource h) dst L =
               take (nat L) (drop (nat (byteOffset src + so)) (buffer src))"
proof -
  define b where "b = underlyingResource h"
  define c where "c = contents (buffers (device m) ! b)"
  have p03: "0 \<le> p" "p \<le> 3" and d4: "(dst - p) mod 4 = 0" and pd: "p \<le> dst"
    using startPre_range [of dst] startPre_le [OF dst0] by (simp_all add: p)
  have bounds: "L + p \<le> A" "A mod 4 = 0"
    using alignedByteLength_bounds [of L p] nonneg small p03 by (simp_all add: A)
  have A0: "0 \<le> A" and LA: "L \<le> A" using bounds nonneg p03 by simp_all
  obtain s off where args: "setSubData_args dst src so len = Inr (dst - p, s, off, A)"
    and lo': "0 \<le> off + byteOffset s"
    and hi': "off + byteOffset s + A \<le> int (length (buffer s))"
    and window: "take (nat L) (drop (nat (off + byteOffset s) + nat p) (buffer s)) =
                 take (nat L) (drop (nat (byteOffset src + so)) (buffer src))"
  proof (cases "backingBufferSize src < A")
    case True
    then have p0: "p = 0" using good by simp
    define X where "X = take (nat L) (drop (nat (byteOffset src + so - p)) (buffer src))"
    define tmp where "tmp = \<lparr>buffer = X @ replicate (nat A - nat L) 0,
                 byteOffset = 0, byteLength = A\<rparr>"
    have hiL: "byteOffset src + so - p + L \<le> int (length (buffer src))"
      using hi True by simp
    have a: "setSubData_args dst src so len = Inr (dst - p, tmp, 0, A)"
      unfolding tmp_def X_def
      by (rule setSubData_args_scratch [OF L p A True lo nonneg hiL LA])
    have "nat L \<le> length (buffer src) - nat (byteOffset src + so - p)"
      using hiL lo nonneg by linarith
    then have lenX: "length X = nat L" by (simp add: X_def min_absorb2)
    have "int (nat L + (nat A - nat L)) = A" using nonneg LA by linarith
    then have len: "int (length (buffer tmp)) = A"
      by (simp add: tmp_def lenX del: of_nat_add)
    have "take (nat L) (drop (nat (0 + byteOffset tmp) + nat p) (buffer tmp)) =
                 take (nat L) (drop (nat (byteOffset src + so)) (buffer src))"
      using lenX by (simp add: tmp_def p0 X_def)
    then show ?thesis using that [of tmp 0] a len by (simp add: tmp_def)
  next
    case False
    have a: "setSubData_args dst src so len = Inr (dst - p, src, so - p, A)"
      using setSubData_args_direct [of src so len dst] False by (simp add: L p A)
    have "nat (so - p + byteOffset src) + nat p = nat (byteOffset src + so)"
      using lo p03 by linarith
    then show ?thesis using that [of src "so - p"] a lo hi False by (simp add: algebra_simps)
  qed
  define k where "k = nat (off + byteOffset s)"
  let ?m' = "m\<lparr>device := (device m)\<lparr>buffers := (buffers (device m))
                  [b := (buffers (device m) ! b)\<lparr>contents :=
                     take (nat (dst - p)) c @ take (nat A) (drop k (buffer s)) @
                     drop (nat (dst - p) + nat A) c\<rparr>]\<rparr>\<rparr>"
  have "setRawData m b (dst - p) s off A = Inr ?m'"
    unfolding c_def k_def b_def
    by (rule setRawData_writes) (use pd lo' hi' A0 bounds live d4 room in simp_all)
  then have run: "setSubData m h dst src so len = Inr ?m'"
    unfolding setSubData_def args b_def by (simp only: prod.case sum.case)
  have "device_read (device ?m') b dst L =
        take (nat L) (drop (nat (dst - p) + nat p)
          (take (nat (dst - p)) c @ take (nat A) (drop k (buffer s)) @
                     drop (nat (dst - p) + nat A) c))"
  proof -
    have "nat dst = nat (dst - p) + nat p" using pd p03 by linarith
    then show ?thesis using live by (simp add: device_read_def b_def)
  qed
  also have "\<dots> = take (nat L) (drop (k + nat p) (buffer s))"
  proof (rule read_back_window)
    show "nat (dst - p) \<le> length c"
      using room sized A0 pd unfolding c_def b_def by linarith
    show "k + nat A \<le> length (buffer s)" using hi' lo' A0 unfolding k_def by linarith
    show "nat p + nat L \<le> nat A" using bounds p03 nonneg by linarith
  qed
  also have "\<dots> = take (nat L) (drop (nat (byteOffset src + so)) (buffer src))"
    using window by (simp add: k_def)
  finally show ?thesis using run unfolding b_def by blast
qed

text \<open>
  C1: the round trip fails. The device buffer has eight bytes, the source is a full copy
  of the six logical bytes, and bytes 1 to 5 are written at offset 1. The scratch copy
  takes five bytes from source offset 0, so the byte read back at offset 5 is 0 and not
  the source's 5. The same happens for a view that has the byte before the window in its
  backing buffer.
\<close>

theorem setSubData_unaligned_scratch_loses_tail:
  "setSubData (manager_with_buffer 8) (handle0 6 1) 1 source6 1 5 =
     Inr ((manager_with_buffer 8)\<lparr>device := \<lparr>buffers = [\<lparr>bufsize = 8, usage = 0,
            mappedAtCreation = False, contents = [9, 1, 2, 3, 4, 0, 0, 0],
            destroyed = False\<rparr>], destroyCalls = []\<rparr>\<rparr>)
   \<and> device_read \<lparr>buffers = [\<lparr>bufsize = 8, usage = 0,
            mappedAtCreation = False, contents = [9, 1, 2, 3, 4, 0, 0, 0],
            destroyed = False\<rparr>], destroyCalls = []\<rparr> 0 1 5 = [1, 2, 3, 4, 0]
   \<and> take 5 (drop 1 (view_bytes source6)) = [1, 2, 3, 4, 5]
   \<and> setSubData (manager_with_buffer 8) (handle0 6 1) 1 inner5 0 0 =
     Inr ((manager_with_buffer 8)\<lparr>device := \<lparr>buffers = [\<lparr>bufsize = 8, usage = 0,
            mappedAtCreation = False, contents = [7, 1, 2, 3, 4, 0, 0, 0],
            destroyed = False\<rparr>], destroyCalls = []\<rparr>\<rparr>)
   \<and> view_bytes inner5 = [1, 2, 3, 4, 5]"
  by (simp add: source6_def inner5_def manager_with_buffer_def handle0_def upload_eval
      device_read_def numeral_eq_Suc)

subsection \<open>Release and deferred destruction\<close>

text \<open>
  C5. \<^verbatim>\<open>releaseBuffer\<close> of a raw device buffer appends it to the deferred-release queue
  and returns true. Of a logical handle it decrements \<open>references\<close>, and appends the
  underlying raw buffer and returns true exactly when the decremented count is 0;
  otherwise it returns false. So a handle with one reference is enqueued by its single
  release, and a handle with two holders gives false on the first release and true on
  the second.
\<close>

theorem releaseBuffer_reference_counting:
  "releaseBuffer m (RawBuffer b) =
     (True, RawBuffer b, m\<lparr>deferredReleaseBuffers := deferredReleaseBuffers m @ [b]\<rparr>)
   \<and> releaseBuffer m (DataBuffer d) =
     (references d - 1 = 0, DataBuffer (d\<lparr>references := references d - 1\<rparr>),
      if references d - 1 = 0
      then m\<lparr>deferredReleaseBuffers := deferredReleaseBuffers m @ [underlyingResource d]\<rparr>
      else m)
   \<and> releaseBuffer m (DataBuffer (d\<lparr>references := 1\<rparr>)) =
     (True, DataBuffer (d\<lparr>references := 0\<rparr>),
      m\<lparr>deferredReleaseBuffers := deferredReleaseBuffers m @ [underlyingResource d]\<rparr>)
   \<and> releaseBuffer m (DataBuffer (d\<lparr>references := 2\<rparr>)) =
     (False, DataBuffer (d\<lparr>references := 1\<rparr>), m)"
  by (simp add: releaseBuffer_def Let_def)

text \<open>A handle created with one reference: its single release enqueues the raw buffer.\<close>

theorem releaseBuffer_reference_counting_witness:
  "createBuffer fresh_manager (Size 6) 0 = Inr (handle0 6 1, manager_with_buffer 8)
   \<and> releaseBuffer (manager_with_buffer 8) (DataBuffer (handle0 6 1)) =
       (True, DataBuffer (handle0 6 0),
        (manager_with_buffer 8)\<lparr>deferredReleaseBuffers := [0]\<rparr>)
   \<and> releaseBuffer (manager_with_buffer 8) (DataBuffer (handle0 6 2)) =
       (False, DataBuffer (handle0 6 1), manager_with_buffer 8)
   \<and> releaseBuffer (manager_with_buffer 8) (RawBuffer 0) =
       (True, RawBuffer 0, (manager_with_buffer 8)\<lparr>deferredReleaseBuffers := [0]\<rparr>)"
  using releaseBuffer_reference_counting [of "manager_with_buffer 8" 0 "handle0 6 1"]
    releaseBuffer_reference_counting [of "manager_with_buffer 8" 0 "handle0 6 2"]
  by (simp add: createBuffer_def createRawBuffer_def device_createBuffer_def
      bitand_numeral_align ToInt32_def fresh_manager_def manager_with_buffer_def
      handle0_def engine7_def)

lemma apply_op_references:
  "references (fst (apply_op operation (h, m))) =
     (if operation = OpReleaseBuffer then references h - 1 else references h)"
  by (cases operation) (simp_all add: releaseBuffer_def Let_def split: sum.splits)

text \<open>
  C6, as amended. Along every sequence of manager operations that never releases the
  handle when its count is already 0, the count of a handle that starts non-negative
  (a created handle starts at 1) never becomes negative.
\<close>

theorem references_never_negative:
  assumes "0 \<le> references h" and "no_over_release ops (h, m)"
  shows "list_all (\<lambda>s. 0 \<le> references (fst s)) (trace ops (h, m))"
  using assms
proof (induction ops arbitrary: h m)
  case Nil
  then show ?case by simp
next
  case (Cons operation ops)
  obtain h' m' where step: "apply_op operation (h, m) = (h', m')"
    by (cases "apply_op operation (h, m)") auto
  have refs: "references h' = (if operation = OpReleaseBuffer then references h - 1 else references h)"
    using apply_op_references [of operation h m] step by simp
  have "0 \<le> references h'"
    using Cons.prems refs by (auto split: if_splits)
  moreover have "no_over_release ops (h', m')"
    using Cons.prems(2) step by simp
  ultimately have "list_all (\<lambda>s. 0 \<le> references (fst s)) (trace ops (h', m'))"
    by (rule Cons.IH)
  then show ?case using Cons.prems(1) step by simp
qed

theorem references_never_negative_witness:
  "list_all (\<lambda>s. 0 \<le> references (fst s))
     (trace [OpSetSubData 1 \<lparr>buffer = [9, 1, 2, 3, 4, 5], byteOffset = 0, byteLength = 6\<rparr> 1 5,
             OpReleaseBuffer, OpDestroyDeferredBuffers]
        (handle0 6 1, manager_with_buffer 8))"
proof -
  have a: "0 \<le> references (handle0 6 1)" by (simp add: handle0_def)
  have b: "no_over_release
     [OpSetSubData 1 \<lparr>buffer = [9, 1, 2, 3, 4, 5], byteOffset = 0, byteLength = 6\<rparr> 1 5,
      OpReleaseBuffer, OpDestroyDeferredBuffers] (handle0 6 1, manager_with_buffer 8)"
    by (simp add: handle0_def apply_op_references [THEN arg_cong] split: sum.splits prod.splits)
  show ?thesis by (rule references_never_negative [OF a b])
qed

text \<open>
  C6 as stated fails: nothing in \<^verbatim>\<open>releaseBuffer\<close> stops a second release of a handle
  created with one reference, and the count goes to \<open>-1\<close>.
\<close>

theorem references_negative_after_second_release:
  "createBuffer fresh_manager (Size 6) 0 = Inr (handle0 6 1, manager_with_buffer 8)
   \<and> references (fst (last (trace [OpReleaseBuffer, OpReleaseBuffer]
         (handle0 6 1, manager_with_buffer 8)))) = - 1"
  by (simp add: createBuffer_def createRawBuffer_def device_createBuffer_def
      bitand_numeral_align ToInt32_def fresh_manager_def manager_with_buffer_def
      handle0_def engine7_def releaseBuffer_def Let_def)

lemma destroyEach_calls:
  "destroyCalls (destroyEach bs dev) = destroyCalls dev @ bs"
  by (induction bs arbitrary: dev) (simp_all add: buffer_destroy_def)

lemma destroyEach_length:
  "length (buffers (destroyEach bs dev)) = length (buffers dev)"
  by (induction bs arbitrary: dev) (simp_all add: buffer_destroy_def)

lemma destroyEach_keeps_destroyed:
  "b < length (buffers dev) \<Longrightarrow> destroyed (buffers dev ! b)
     \<Longrightarrow> destroyed (buffers (destroyEach bs dev) ! b)"
proof (induction bs arbitrary: dev)
  case Nil
  then show ?case by simp
next
  case (Cons a bs)
  have "b < length (buffers (buffer_destroy dev a))"
    using Cons.prems(1) by (simp add: buffer_destroy_def)
  moreover have "destroyed (buffers (buffer_destroy dev a) ! b)"
    using Cons.prems by (simp add: buffer_destroy_def nth_list_update)
  ultimately show ?case using Cons.IH by simp
qed

lemma destroyEach_destroys:
  "b \<in> set bs \<Longrightarrow> b < length (buffers dev) \<Longrightarrow> destroyed (buffers (destroyEach bs dev) ! b)"
proof (induction bs arbitrary: dev)
  case Nil
  then show ?case by simp
next
  case (Cons a bs)
  have len: "b < length (buffers (buffer_destroy dev a))"
    using Cons.prems(2) by (simp add: buffer_destroy_def)
  show ?case
  proof (cases "b = a")
    case True
    then have "destroyed (buffers (buffer_destroy dev a) ! b)"
      using Cons.prems(2) by (simp add: buffer_destroy_def)
    then show ?thesis using len by (simp add: destroyEach_keeps_destroyed)
  next
    case False
    then have "b \<in> set bs" using Cons.prems(1) by simp
    then show ?thesis using Cons.IH len by simp
  qed
qed

text \<open>
  C8. \<^verbatim>\<open>destroyDeferredBuffers\<close> issues a destroy on every buffer of the queue, in
  order and none skipped, and leaves the queue empty; a second call right after it
  issues no destroy and changes nothing.
\<close>

theorem destroyDeferredBuffers_drains:
  "deferredReleaseBuffers (destroyDeferredBuffers m) = []
   \<and> destroyCalls (device (destroyDeferredBuffers m)) =
       destroyCalls (device m) @ deferredReleaseBuffers m
   \<and> (\<forall>b \<in> set (deferredReleaseBuffers m). b < length (buffers (device m)) \<longrightarrow>
         destroyed (buffers (device (destroyDeferredBuffers m)) ! b))
   \<and> destroyDeferredBuffers (destroyDeferredBuffers m) = destroyDeferredBuffers m"
  by (simp add: destroyDeferredBuffers_def destroyEach_calls destroyEach_destroys)

theorem destroyDeferredBuffers_drains_witness:
  "deferredReleaseBuffers (destroyDeferredBuffers
       ((manager_with_buffer 8)\<lparr>deferredReleaseBuffers := [0]\<rparr>)) = []
   \<and> destroyCalls (device (destroyDeferredBuffers
       ((manager_with_buffer 8)\<lparr>deferredReleaseBuffers := [0]\<rparr>))) = [0]
   \<and> destroyed (buffers (device (destroyDeferredBuffers
       ((manager_with_buffer 8)\<lparr>deferredReleaseBuffers := [0]\<rparr>))) ! 0)"
  using destroyDeferredBuffers_drains [of "(manager_with_buffer 8)\<lparr>deferredReleaseBuffers := [0]\<rparr>"]
  by (simp add: manager_with_buffer_def)

subsection \<open>A rejected mapping\<close>

text \<open>
  C4. When the device rejects the map operation of \<^verbatim>\<open>readDataFromBuffer\<close>: if the
  engine has been disposed, or its identity differs from the one captured when the read
  began, the promise resolves with an empty byte view; for any other rejection the
  reason is passed on to the caller.
\<close>

theorem readDataFromBuffer_rejected_mapping:
  "(isDisposed (engine m') \<or> uniqueId (engine m') \<noteq> uniqueId (engine m) \<longrightarrow>
      readDataFromBuffer m gpuBuffer sz width height bytesPerRow bytesPerRowAligned ty off
        dest destroyBuffer noDataConversion (MapRejected reason) m'
      = (Resolved \<lparr>buffer = [], byteOffset = 0, byteLength = 0\<rparr>, m'))
   \<and> (\<not> isDisposed (engine m') \<and> uniqueId (engine m') = uniqueId (engine m) \<longrightarrow>
      readDataFromBuffer m gpuBuffer sz width height bytesPerRow bytesPerRowAligned ty off
        dest destroyBuffer noDataConversion (MapRejected reason) m'
      = (Rejected reason, m'))"
  by (simp add: readDataFromBuffer_def whole_def)

theorem readDataFromBuffer_rejected_mapping_witness:
  "readDataFromBuffer fresh_manager 0 8 2 1 8 8 TEXTURETYPE_UNSIGNED_BYTE 0 None True False
       (MapRejected AbortError) (fresh_manager\<lparr>engine := engine7\<lparr>isDisposed := True\<rparr>\<rparr>)
     = (Resolved \<lparr>buffer = [], byteOffset = 0, byteLength = 0\<rparr>,
        fresh_manager\<lparr>engine := engine7\<lparr>isDisposed := True\<rparr>\<rparr>)
   \<and> readDataFromBuffer fresh_manager 0 8 2 1 8 8 TEXTURETYPE_UNSIGNED_BYTE 0 None True False
       (MapRejected AbortError) (fresh_manager\<lparr>engine := engine7\<lparr>uniqueId := 8\<rparr>\<rparr>)
     = (Resolved \<lparr>buffer = [], byteOffset = 0, byteLength = 0\<rparr>,
        fresh_manager\<lparr>engine := engine7\<lparr>uniqueId := 8\<rparr>\<rparr>)
   \<and> readDataFromBuffer fresh_manager 0 8 2 1 8 8 TEXTURETYPE_UNSIGNED_BYTE 0 None True False
       (MapRejected AbortError) fresh_manager
     = (Rejected AbortError, fresh_manager)"
  using readDataFromBuffer_rejected_mapping
    [of "fresh_manager\<lparr>engine := engine7\<lparr>isDisposed := True\<rparr>\<rparr>" fresh_manager 0 8 2 1 8 8
        TEXTURETYPE_UNSIGNED_BYTE 0 None True False AbortError]
    readDataFromBuffer_rejected_mapping
    [of "fresh_manager\<lparr>engine := engine7\<lparr>uniqueId := 8\<rparr>\<rparr>" fresh_manager 0 8 2 1 8 8
        TEXTURETYPE_UNSIGNED_BYTE 0 None True False AbortError]
    readDataFromBuffer_rejected_mapping
    [of fresh_manager fresh_manager 0 8 2 1 8 8
        TEXTURETYPE_UNSIGNED_BYTE 0 None True False AbortError]
  by (simp add: fresh_manager_def engine7_def)

subsection \<open>Row compaction\<close>











subsection \<open>Read-back into a destination view\<close>













end
